theory Spec2Isabelle
  imports Complex_Main "HOL-Library.Multiset" "HOL-Library.List_Lexorder" "HOL-Library.Log_Nat"
begin

section \<open>Strings of the host language\<close>

text \<open>
  A JavaScript string is a sequence of UTF-16 code units. The model takes the code units
  U+0000 .. U+00FF, one \<^typ>\<open>char\<close> each, so a \<^typ>\<open>string\<close> here is a
  JavaScript string all of whose code units are below 256. On this range the built-ins
  used by the program act code unit by code unit, as written below.
\<close>

definition isWhiteSpace :: "char \<Rightarrow> bool" where
  \<comment> \<open>What \<open>\s\<close> matches and what \<open>trim\<close> removes: TAB, LF, VT, FF, CR, SPACE, NBSP.\<close>
  "isWhiteSpace c \<longleftrightarrow> (of_char c :: nat) \<in> {9, 10, 11, 12, 13, 32, 160}"

definition lowerChar :: "char \<Rightarrow> char" where
  \<comment> \<open>\<open>A\<close>..\<open>Z\<close> and U+00C0..U+00DE (without the sign U+00D7) have a lower-case form, 32 above.\<close>
  "lowerChar c =
     (let n = (of_char c :: nat)
      in if (65 \<le> n \<and> n \<le> 90) \<or> (192 \<le> n \<and> n \<le> 222 \<and> n \<noteq> 215)
         then char_of (n + 32) else c)"

definition toLowerCase :: "string \<Rightarrow> string" where
  "toLowerCase s = map lowerChar s"

definition trim :: "string \<Rightarrow> string" where
  "trim s = rev (dropWhile isWhiteSpace (rev (dropWhile isWhiteSpace s)))"

definition keptChar :: "char \<Rightarrow> bool" where
  \<comment> \<open>The complement of the character class \<open>[^a-z0-9\s]\<close>.\<close>
  "keptChar c \<longleftrightarrow>
     (let n = (of_char c :: nat)
      in (97 \<le> n \<and> n \<le> 122) \<or> (48 \<le> n \<and> n \<le> 57) \<or> isWhiteSpace c)"

definition trimmed :: "string \<Rightarrow> bool" where
  \<comment> \<open>No white space at either end.\<close>
  "trimmed s \<longleftrightarrow> (case s of [] \<Rightarrow> True | c # cs \<Rightarrow> \<not> isWhiteSpace c \<and> \<not> isWhiteSpace (last s))"


text \<open>
  \<open>s.split("-")\<close> with a separator of one code unit: the pieces between the separators,
  never an empty array (\<open>"".split("-")\<close> is \<open>[""]\<close>).
\<close>

fun split :: "char \<Rightarrow> string \<Rightarrow> string list" where
  "split sep [] = [[]]"
| "split sep (c # cs) =
     (if c = sep then [] # split sep cs
      else (case split sep cs of [] \<Rightarrow> [[c]] | w # ws \<Rightarrow> (c # w) # ws))"

definition charAt :: "string \<Rightarrow> nat \<Rightarrow> string" where
  \<comment> \<open>A string of one code unit, or the empty string when the index is out of range.\<close>
  "charAt s i = take 1 (drop i s)"

definition slice :: "string \<Rightarrow> nat \<Rightarrow> string" where
  \<comment> \<open>\<open>s.slice(i)\<close> for a start index \<open>i \<ge> 0\<close>.\<close>
  "slice s i = drop i s"

definition upperChar :: "char \<Rightarrow> string" where
  \<comment> \<open>\<open>a\<close>..\<open>z\<close> and U+00E0..U+00FE (without the sign U+00F7) have an upper-case form 32
      below; U+00DF becomes \<open>SS\<close>. The upper-case forms of U+00B5 and U+00FF lie above
      U+00FF, outside the code units of the model, and the two are left as they are: the
      program upper-cases only the first code unit of a normalized name, which is neither
      (\<open>keptChar_upperChar\<close> below).\<close>
  "upperChar c =
     (let n = (of_char c :: nat)
      in if (97 \<le> n \<and> n \<le> 122) \<or> (224 \<le> n \<and> n \<le> 254 \<and> n \<noteq> 247)
         then [char_of (n - 32)]
         else if n = 223 then ''SS'' else [c])"

definition toUpperCase :: "string \<Rightarrow> string" where
  "toUpperCase s = concat (map upperChar s)"


section \<open>Array.prototype.sort\<close>

text \<open>
  \<open>xs.sort(cmp)\<close> is stable, and for a consistent comparator its result is the one
  ordering of \<open>xs\<close> that is ascending under \<open>cmp\<close> and keeps equal elements in their
  order. Insertion from the right computes it; \<open>cmp x y \<le> 0\<close> places \<open>x\<close> in front
  of \<open>y\<close>.
\<close>

fun insertBy :: "('a \<Rightarrow> 'a \<Rightarrow> 'n::{linorder,zero}) \<Rightarrow> 'a \<Rightarrow> 'a list \<Rightarrow> 'a list" where
  "insertBy cmp x [] = [x]"
| "insertBy cmp x (y # ys) = (if cmp x y \<le> 0 then x # y # ys else y # insertBy cmp x ys)"

definition sortBy :: "('a \<Rightarrow> 'a \<Rightarrow> 'n::{linorder,zero}) \<Rightarrow> 'a list \<Rightarrow> 'a list" where
  "sortBy cmp xs = foldr (insertBy cmp) xs []"


section \<open>Map\<close>

text \<open>
  A \<open>Map\<close> with string keys keeps its entries in insertion order: an association list
  with one entry per key. \<open>set\<close> on a present key replaces the value in place, on an
  absent key it appends.
\<close>

type_synonym 'v jsMap = "(string \<times> 'v) list"

definition mapGet :: "'v jsMap \<Rightarrow> string \<Rightarrow> 'v option" where
  "mapGet m k = map_of m k"

fun mapSet :: "'v jsMap \<Rightarrow> string \<Rightarrow> 'v \<Rightarrow> 'v jsMap" where
  "mapSet [] k v = [(k, v)]"
| "mapSet ((k', v') # m) k v = (if k' = k then (k, v) # m else (k', v') # mapSet m k v)"


section \<open>Numbers of the host language\<close>

text \<open>
  A JavaScript number is an IEEE 754 double: a finite binary fraction, an infinity or
  \<open>NaN\<close>, and every operation rounds. The model leaves the type of numbers, \<open>'n\<close>, and
  the host's operations on it open: a \<open>Numbers\<close> holds the arithmetic the program uses,
  a \<open>Math\<close> adds the library functions and the two ways the program reads a number as
  a truth value or as the verdict of a comparator. What is proved of the program is
  proved for every host. \<open>num_of_nat n\<close> is the number that is the integer \<open>n\<close>, a
  count or a literal of the source.
\<close>

record 'n Numbers =
  num_of_nat :: "nat \<Rightarrow> 'n"
  num_add :: "'n \<Rightarrow> 'n \<Rightarrow> 'n"
  num_sub :: "'n \<Rightarrow> 'n \<Rightarrow> 'n"
  num_mul :: "'n \<Rightarrow> 'n \<Rightarrow> 'n"
  num_div :: "'n \<Rightarrow> 'n \<Rightarrow> 'n"

record 'n Math = "'n Numbers" +
  Math_PI :: 'n
  Math_sin :: "'n \<Rightarrow> 'n"
  Math_cos :: "'n \<Rightarrow> 'n"
  Math_sqrt :: "'n \<Rightarrow> 'n"
  Math_atan2 :: "'n \<Rightarrow> 'n \<Rightarrow> 'n"
  truthy :: "'n \<Rightarrow> bool"
  \<comment> \<open>\<open>ToBoolean\<close>: false for \<open>0\<close>, \<open>-0\<close> and \<open>NaN\<close>.\<close>
  verdict :: "'n \<Rightarrow> int"
  \<comment> \<open>How \<open>sort\<close> reads what a comparator returns: its sign, and 0 for \<open>NaN\<close>.\<close>

text \<open>
  An instance for the examples, \<open>binary64\<close>: the finite doubles, each as the rational
  number it denotes, with the rounding of IEEE 754 (to nearest, ties to even, a
  significand of 53 bits, gradual underflow). It is the host's arithmetic wherever the
  exact result is within the range of the doubles and no division is by zero; the sign
  of a zero is not kept.
\<close>

definition roundToEven :: "rat \<Rightarrow> int" where
  "roundToEven x =
     (let f = \<lfloor>x\<rfloor>; r = x - of_int f
      in if r < 1 / 2 then f else if 1 / 2 < r then f + 1 else if even f then f else f + 1)"

definition scale2 :: "rat \<Rightarrow> int \<Rightarrow> rat" where
  \<comment> \<open>\<open>x\<close> times two to the power \<open>k\<close>.\<close>
  "scale2 x k = (if 0 \<le> k then x * 2 ^ nat k else x / 2 ^ nat (- k))"

definition exponent :: "rat \<Rightarrow> int" where
  \<comment> \<open>For \<open>x > 0\<close>, the \<open>e\<close> with \<open>2 ^ e \<le> x < 2 ^ (e + 1)\<close>.\<close>
  "exponent x =
     (let (p, q) = quotient_of x; k = bitlen p - bitlen q
      in if scale2 1 k \<le> x then k else k - 1)"

definition roundDouble :: "rat \<Rightarrow> rat" where
  "roundDouble x =
     (if x = 0 then 0
      else let e = max (exponent \<bar>x\<bar>) (- 1022)
           in scale2 (of_int (roundToEven (scale2 x (52 - e)))) (e - 52))"

definition binary64 :: "rat Numbers" where
  "binary64 =
     \<lparr>num_of_nat = (\<lambda>n. roundDouble (of_nat n)),
      num_add = (\<lambda>x y. roundDouble (x + y)),
      num_sub = (\<lambda>x y. roundDouble (x - y)),
      num_mul = (\<lambda>x y. roundDouble (x * y)),
      num_div = (\<lambda>x y. roundDouble (x / y))\<rparr>"


section \<open>AveragePricePanel: name normalization and aggregation\<close>

text \<open>
  \<^verbatim>\<open>name.toLowerCase().trim().replace(/[^a-z0-9\s]/g, "")\<close>
\<close>

definition normalizeProductName :: "string \<Rightarrow> string" where
  "normalizeProductName name = filter keptChar (trim (toLowerCase name))"


record 'n Product =
  name :: string
  category :: string
  price :: 'n

record 'n PriceEntry =
  total :: 'n
  count :: nat
  category :: string

record 'n AveragePrice =
  name :: string
  category :: string
  avgPrice :: 'n
  shopCount :: nat

datatype error = TypeError

text \<open>
  \<open>parseFloat(product.price.toString())\<close> gives back the number \<open>product.price\<close>
  (every number but \<open>-0\<close>, which a \<open>DECIMAL\<close> column does not yield). \<open>count\<close> is an
  integer below \<open>2 ^ 53\<close>, where adding 1 is exact, and is kept as a natural number;
  \<open>total\<close> is added up by the host.

  The callback of \<open>products.forEach\<close>, with the \<open>Map\<close> passed along: \<open>has\<close> and
  \<open>get\<close> are one look-up, and the update of \<open>existing\<close>, an object held by the
  \<open>Map\<close>, is a \<open>set\<close> at its key.
\<close>

definition addProduct ::
  "'n Numbers \<Rightarrow> 'n PriceEntry jsMap \<Rightarrow> 'n Product \<Rightarrow> 'n PriceEntry jsMap" where
  "addProduct host priceMap product =
     (let normalizedName = normalizeProductName (Product.name product);
          key = normalizedName @ ''-'' @ Product.category product
      in case mapGet priceMap key of
           Some existing \<Rightarrow>
             mapSet priceMap key
               (existing\<lparr>total := num_add host (total existing) (price product),
                          count := count existing + 1\<rparr>)
         | None \<Rightarrow>
             mapSet priceMap key
               \<lparr>total = price product, count = 1, category = Product.category product\<rparr>)"

definition capitalizeFirst :: "string \<Rightarrow> string" where
  \<comment> \<open>\<open>name.charAt(0).toUpperCase() + name.slice(1)\<close>\<close>
  "capitalizeFirst nm = toUpperCase (charAt nm 0) @ slice nm 1"

text \<open>
  The callback of \<open>Array.from(priceMap.entries()).map\<close>. Destructuring \<open>[name]\<close> (here \<open>nm\<close>)
  from an empty array would leave it undefined, and \<open>name.charAt\<close> would throw. The
  division is the host's, by the number that is the count; the count is never zero
  (\<open>count_addProducts\<close> below).
\<close>

definition toAverage :: "'n Numbers \<Rightarrow> string \<times> 'n PriceEntry \<Rightarrow> error + 'n AveragePrice" where
  "toAverage host entry =
     (case entry of (key, value) \<Rightarrow>
        (case split CHR ''-'' key of
           [] \<Rightarrow> Inl TypeError
         | nm # _ \<Rightarrow>
             Inr \<lparr>AveragePrice.name = capitalizeFirst nm,
                  category = PriceEntry.category value,
                  avgPrice = num_div host (total value) (num_of_nat host (count value)),
                  shopCount = count value\<rparr>))"

fun mapE :: "('a \<Rightarrow> 'e + 'b) \<Rightarrow> 'a list \<Rightarrow> 'e + 'b list" where
  "mapE f [] = Inr []"
| "mapE f (x # xs) =
     (case f x of
        Inl e \<Rightarrow> Inl e
      | Inr y \<Rightarrow> (case mapE f xs of Inl e \<Rightarrow> Inl e | Inr ys \<Rightarrow> Inr (y # ys)))"

text \<open>
  Lines 31 to 60 of \<open>fetchAveragePrices\<close>: from the fetched products to the array handed
  to \<open>setAveragePrices\<close>, or the exception thrown on the way. \<open>localeCompare\<close> is the
  host's \<open>String.prototype.localeCompare\<close>, a collation that depends on the host's
  locale; like the host's arithmetic it is a parameter.
\<close>

definition computeAverages ::
  "'n Numbers \<Rightarrow> (string \<Rightarrow> string \<Rightarrow> int) \<Rightarrow> 'n Product list \<Rightarrow> error + 'n AveragePrice list" where
  "computeAverages host localeCompare products =
     (let priceMap = foldl (addProduct host) [] products
      in case mapE (toAverage host) priceMap of
           Inl e \<Rightarrow> Inl e
         | Inr averages \<Rightarrow>
             Inr (sortBy (\<lambda>a b. localeCompare (AveragePrice.name a) (AveragePrice.name b))
                    averages))"

record 'n PanelState =
  averagePrices :: "'n AveragePrice list"
  loading :: bool

datatype 'a response = Rejected string | Resolved 'a

text \<open>
  \<open>fetchAveragePrices\<close> on the state of the panel. The query either rejects or resolves
  with \<open>data\<close>, which may be \<open>null\<close>; an exception is caught and logged, and
  \<open>finally\<close> clears \<open>loading\<close> on every path.
\<close>

definition fetchAveragePrices ::
  "'n Numbers \<Rightarrow> (string \<Rightarrow> string \<Rightarrow> int) \<Rightarrow> 'n Product list option response
     \<Rightarrow> 'n PanelState \<Rightarrow> 'n PanelState" where
  "fetchAveragePrices host localeCompare response st =
     (case response of
        Rejected message \<Rightarrow> st\<lparr>loading := False\<rparr>
      | Resolved None \<Rightarrow> st\<lparr>loading := False\<rparr>
      | Resolved (Some products) \<Rightarrow>
          (case computeAverages host localeCompare products of
             Inl e \<Rightarrow> st\<lparr>loading := False\<rparr>
           | Inr averages \<Rightarrow> st\<lparr>averagePrices := averages, loading := False\<rparr>))"

text \<open>
  The group a product belongs to, the products of a group in input order, and the
  running total of their prices: the first price, and each later one added to it by the
  host, in input order. No group is without a product; the total of no prices is put at
  the number 0.
\<close>

definition groupOf :: "'n Product \<Rightarrow> string \<times> string" where
  "groupOf p = (normalizeProductName (Product.name p), Product.category p)"

definition members :: "'n Product list \<Rightarrow> string \<times> string \<Rightarrow> 'n Product list" where
  "members products g = filter (\<lambda>p. groupOf p = g) products"

definition runningTotal :: "'n Numbers \<Rightarrow> 'n list \<Rightarrow> 'n" where
  "runningTotal host xs =
     (case xs of [] \<Rightarrow> num_of_nat host 0 | x # rest \<Rightarrow> foldl (num_add host) x rest)"

definition keyOf :: "string \<times> string \<Rightarrow> string" where
  \<comment> \<open>The key of the \<open>Map\<close> under which a group is held.\<close>
  "keyOf g = fst g @ ''-'' @ snd g"

definition wellFormed :: "string \<times> string \<Rightarrow> bool" where
  "wellFormed g \<longleftrightarrow> CHR ''-'' \<notin> set (fst g)"

definition groups :: "'n Product list \<Rightarrow> (string \<times> string) list" where
  \<comment> \<open>The groups of a product list, each once, in the order of their first product.\<close>
  "groups products =
     foldl (\<lambda>gs p. if groupOf p \<in> set gs then gs else gs @ [groupOf p]) [] products"

definition entryOf :: "'n Numbers \<Rightarrow> 'n Product list \<Rightarrow> string \<times> string \<Rightarrow> 'n PriceEntry" where
  "entryOf host products g =
     \<lparr>total = runningTotal host (map price (members products g)),
      count = length (members products g),
      category = snd g\<rparr>"

definition averageOf :: "'n Numbers \<Rightarrow> 'n Product list \<Rightarrow> string \<times> string \<Rightarrow> 'n AveragePrice" where
  "averageOf host products g =
     \<lparr>AveragePrice.name = capitalizeFirst (fst g),
      category = snd g,
      avgPrice = num_div host (runningTotal host (map price (members products g)))
                   (num_of_nat host (length (members products g))),
      shopCount = length (members products g)\<rparr>"

text \<open>
  The display name in the words of the specification: the normalized name with its first
  character upper-cased, where only \<open>a\<close>..\<open>z\<close> have an upper-case form among the
  characters a normalized name is made of.
\<close>

definition asciiUpper :: "char \<Rightarrow> char" where
  "asciiUpper c = (let n = (of_char c :: nat) in if 97 \<le> n \<and> n \<le> 122 then char_of (n - 32) else c)"

definition firstUpper :: "string \<Rightarrow> string" where
  "firstUpper s = (case s of [] \<Rightarrow> [] | c # cs \<Rightarrow> asciiUpper c # cs)"

text \<open>
  Orders of display names. \<open>ordinalKey\<close> is the key of case-insensitive ordinal
  comparison: the code units of the lower-cased string, compared lexicographically.
  \<open>rootCompare\<close> is an instance of \<open>localeCompare\<close>: the primary level of the Unicode
  root collation on the characters a display name is made of, which ranks white space
  (SPACE and NBSP alike) before digits before letters, upper and lower case alike. On
  strings that differ at that level it has the sign that engines built on ICU return in
  the root and English locales. A comparator is consistent when it is total and
  transitive, as a collation is.
\<close>

definition ordinalKey :: "string \<Rightarrow> nat list" where
  "ordinalKey s = map of_char (toLowerCase s)"

definition collationRank :: "char \<Rightarrow> nat" where
  "collationRank c =
     (let n = (of_char c :: nat)
      in if n = 160 then 32 else if 65 \<le> n \<and> n \<le> 90 then n + 32 else n)"

definition rootCompare :: "string \<Rightarrow> string \<Rightarrow> int" where
  "rootCompare a b =
     (if map collationRank a = map collationRank b then 0
      else if map collationRank a < map collationRank b then - 1 else 1)"

definition consistent :: "('a \<Rightarrow> 'a \<Rightarrow> int) \<Rightarrow> bool" where
  "consistent cmp \<longleftrightarrow>
     (\<forall>a b. cmp a b \<le> 0 \<or> cmp b a \<le> 0)
     \<and> (\<forall>a b c. cmp a b \<le> 0 \<and> cmp b c \<le> 0 \<longrightarrow> cmp a c \<le> 0)"


section \<open>BuyerDashboard: distance and ranking\<close>

record 'n Shop =
  id :: string
  shop_name :: string
  owner_name :: string
  address :: string
  latitude :: 'n
  longitude :: 'n
  phone :: "string option"
  distance :: "'n option"

record 'n Location =
  lat :: 'n
  lng :: 'n

text \<open>
  \<open>calculateDistance\<close>, operation by operation, in the host's arithmetic and with the
  host's \<open>Math\<close>. \<open>degree\<close> is the subterm \<open>Math.PI / 180\<close>, which the source writes
  out at each use, and \<open>half x\<close> is \<open>x / 2\<close>. Products without parentheses associate to
  the left, as in the source.
\<close>

definition calculateDistance :: "'n Math \<Rightarrow> 'n \<Rightarrow> 'n \<Rightarrow> 'n \<Rightarrow> 'n \<Rightarrow> 'n" where
  "calculateDistance host lat1 lon1 lat2 lon2 =
     (let R = num_of_nat host 6371;
          degree = num_div host (Math_PI host) (num_of_nat host 180);
          half = (\<lambda>x. num_div host x (num_of_nat host 2));
          dLat = num_mul host (num_sub host lat2 lat1) degree;
          dLon = num_mul host (num_sub host lon2 lon1) degree;
          a = num_add host
                (num_mul host (Math_sin host (half dLat)) (Math_sin host (half dLat)))
                (num_mul host
                   (num_mul host
                      (num_mul host
                         (Math_cos host (num_mul host lat1 degree))
                         (Math_cos host (num_mul host lat2 degree)))
                      (Math_sin host (half dLon)))
                   (Math_sin host (half dLon)));
          c = num_mul host (num_of_nat host 2)
                (Math_atan2 host (Math_sqrt host a)
                   (Math_sqrt host (num_sub host (num_of_nat host 1) a)))
      in num_mul host R c)"

definition orZero :: "'n Math \<Rightarrow> 'n option \<Rightarrow> 'n" where
  \<comment> \<open>\<open>x || 0\<close> for a number that may be undefined: \<open>0\<close> also for \<open>NaN\<close>.\<close>
  "orZero host x =
     (case x of None \<Rightarrow> num_of_nat host 0 | Some d \<Rightarrow> if truthy host d then d else num_of_nat host 0)"

record 'n DashboardState =
  shops :: "'n Shop list"
  userLocation :: "'n Location option"
  loading :: bool
  toasts :: "(string \<times> string) list"

text \<open>
  \<open>fetchShops\<close> on the state of the dashboard. \<open>captured\<close> is the \<open>userLocation\<close>
  the closure holds: that of the render which created it. The query rejects with a message or
  resolves with \<open>data\<close> and \<open>error\<close>; an error is thrown, caught and shown as a toast,
  and \<open>finally\<close> clears \<open>loading\<close> on every path. \<open>Number\<close> of a number is that
  number. Where the comparator is not consistent the order \<open>sort\<close> leaves is the
  implementation's; the model's is that of insertion.
\<close>

definition fetchShops ::
  "'n Math \<Rightarrow> 'n Location option \<Rightarrow> ('n Shop list option \<times> string option) response
     \<Rightarrow> 'n DashboardState \<Rightarrow> 'n DashboardState" where
  "fetchShops host captured response st =
     (case response of
        Rejected message \<Rightarrow>
          st\<lparr>loading := False, toasts := toasts st @ [(''Error loading shops'', message)]\<rparr>
      | Resolved (data, Some message) \<Rightarrow>
          st\<lparr>loading := False, toasts := toasts st @ [(''Error loading shops'', message)]\<rparr>
      | Resolved (data, None) \<Rightarrow>
          (let shopsWithDistance = (case data of None \<Rightarrow> [] | Some rows \<Rightarrow> rows);
               shopsWithDistance =
                 (case captured of
                    None \<Rightarrow> shopsWithDistance
                  | Some loc \<Rightarrow>
                      sortBy (\<lambda>a b. verdict host
                                       (num_sub host (orZero host (distance a))
                                          (orZero host (distance b))))
                        (map (\<lambda>shop. shop\<lparr>distance :=
                                Some (calculateDistance host (lat loc) (lng loc)
                                        (latitude shop) (longitude shop))\<rparr>)
                           shopsWithDistance))
           in st\<lparr>shops := shopsWithDistance, loading := False\<rparr>))"

text \<open>
  The component. Its state starts with no shops and no location. The effect that runs
  once after the first render calls \<open>getUserLocation\<close> and \<open>fetchShops\<close>, the closures
  of that render; nothing else calls \<open>fetchShops\<close>, and the button calls
  \<open>getUserLocation\<close> again. What happens afterwards is a sequence of events: a position
  is found or refused, the query of the shops settles. The handler of the last is the
  \<open>fetchShops\<close> of the first render, whose \<open>userLocation\<close> is that of the initial state.
\<close>

definition initialState :: "'n DashboardState" where
  "initialState = \<lparr>shops = [], userLocation = None, loading = True, toasts = []\<rparr>"

datatype 'n event =
  PositionFound "'n Location"
| PositionDenied
| ShopsQuerySettled "('n Shop list option \<times> string option) response"

definition handle :: "'n Math \<Rightarrow> 'n event \<Rightarrow> 'n DashboardState \<Rightarrow> 'n DashboardState" where
  "handle host e st =
     (case e of
        PositionFound position \<Rightarrow> st\<lparr>userLocation := Some position\<rparr>
      | PositionDenied \<Rightarrow>
          st\<lparr>toasts := toasts st @
               [(''Location access denied'', ''Showing all shops without distance sorting'')]\<rparr>
      | ShopsQuerySettled response \<Rightarrow>
          fetchShops host (userLocation (initialState :: 'n DashboardState)) response st)"

definition BuyerDashboard :: "'n Math \<Rightarrow> 'n event list \<Rightarrow> 'n DashboardState" where
  "BuyerDashboard host events = foldl (\<lambda>st e. handle host e st) initialState events"

definition fetched :: "'n Shop list \<Rightarrow> 'n event \<Rightarrow> 'n Shop list" where
  \<comment> \<open>The rows of a query that settles without error; any other event leaves them.\<close>
  "fetched rows e =
     (case e of
        ShopsQuerySettled (Resolved (data, None)) \<Rightarrow> (case data of None \<Rightarrow> [] | Some r \<Rightarrow> r)
      | _ \<Rightarrow> rows)"


section \<open>Facts about the string functions\<close>

lemma keptChar_lowerChar: "keptChar c \<Longrightarrow> lowerChar c = c"
  by (auto simp: keptChar_def lowerChar_def isWhiteSpace_def Let_def)

lemma toLowerCase_kept: "\<forall>c \<in> set s. keptChar c \<Longrightarrow> toLowerCase s = s"
  by (simp add: toLowerCase_def keptChar_lowerChar map_idI)

lemma set_trim: "set (trim s) \<subseteq> set s"
proof -
  have "set (trim s) \<subseteq> set (dropWhile isWhiteSpace s)"
    unfolding trim_def by (auto dest: set_dropWhileD)
  also have "\<dots> \<subseteq> set s"
    by (auto dest: set_dropWhileD)
  finally show ?thesis .
qed

lemma kept_normalizeProductName: "c \<in> set (normalizeProductName x) \<Longrightarrow> keptChar c"
  by (simp add: normalizeProductName_def)

lemma dropWhile_id_iff: "dropWhile P xs = xs \<longleftrightarrow> (case xs of [] \<Rightarrow> True | x # _ \<Rightarrow> \<not> P x)"
proof (cases xs)
  case Nil
  then show ?thesis by simp
next
  case (Cons x ys)
  have "P x \<Longrightarrow> dropWhile P ys \<noteq> x # ys"
  proof
    assume "dropWhile P ys = x # ys"
    then have "length (dropWhile P ys) = Suc (length ys)" by simp
    moreover have "length (dropWhile P ys) \<le> length ys" by (rule length_dropWhile_le)
    ultimately show False by simp
  qed
  with Cons show ?thesis by auto
qed

lemma trim_id_iff: "trim s = s \<longleftrightarrow> trimmed s"
proof
  assume eq: "trim s = s"
  let ?t = "dropWhile isWhiteSpace s"
  have "length s = length (dropWhile isWhiteSpace (rev ?t))"
    using eq by (metis trim_def length_rev)
  also have "\<dots> \<le> length (rev ?t)" by (rule length_dropWhile_le)
  finally have "length s \<le> length ?t" by simp
  moreover have "length ?t \<le> length s" by (rule length_dropWhile_le)
  ultimately have "length ?t = length s" by simp
  then have t: "?t = s"
    by (metis append_eq_conv_conj length_append add_left_cancel
        takeWhile_dropWhile_id length_0_conv add.commute append_Nil)
  with eq have "rev (dropWhile isWhiteSpace (rev s)) = s" by (simp add: trim_def)
  then have r: "dropWhile isWhiteSpace (rev s) = rev s" by (metis rev_rev_ident)
  show "trimmed s"
  proof (cases s)
    case Nil
    then show ?thesis by (simp add: trimmed_def)
  next
    case (Cons c cs)
    from t have "case s of [] \<Rightarrow> True | x # _ \<Rightarrow> \<not> isWhiteSpace x"
      by (simp only: dropWhile_id_iff)
    then have "\<not> isWhiteSpace c" using Cons by simp
    moreover from r have "case rev s of [] \<Rightarrow> True | x # _ \<Rightarrow> \<not> isWhiteSpace x"
      by (simp only: dropWhile_id_iff)
    then have "\<not> isWhiteSpace (last s)"
      using Cons by (cases "rev s") (auto simp: hd_rev [symmetric])
    ultimately show ?thesis using Cons by (simp add: trimmed_def)
  qed
next
  assume tr: "trimmed s"
  show "trim s = s"
  proof (cases s)
    case Nil
    then show ?thesis by (simp add: trim_def)
  next
    case (Cons c cs)
    with tr have c: "\<not> isWhiteSpace c" and l: "\<not> isWhiteSpace (last s)"
      by (simp_all add: trimmed_def)
    have "dropWhile isWhiteSpace s = s" using c Cons by simp
    moreover have "dropWhile isWhiteSpace (rev s) = rev s"
    proof (cases "rev s")
      case Nil
      then show ?thesis by simp
    next
      case (Cons d ds)
      then have "d = last s" using \<open>s = c # cs\<close> by (metis hd_rev list.sel(1))
      with l have "\<not> isWhiteSpace d" by simp
      then show ?thesis unfolding Cons by simp
    qed
    ultimately show ?thesis by (simp add: trim_def)
  qed
qed

lemma normalizeProductName_kept: "\<forall>c \<in> set y. keptChar c \<Longrightarrow> normalizeProductName y = trim y"
proof -
  assume k: "\<forall>c \<in> set y. keptChar c"
  then have "toLowerCase y = y" by (rule toLowerCase_kept)
  moreover have "\<forall>c \<in> set (trim y). keptChar c" using k set_trim by blast
  ultimately show ?thesis by (simp add: normalizeProductName_def)
qed


section \<open>Normalization and idempotence\<close>

text \<open>
  C4, as stated: normalizing twice is the same as normalizing once, for every name.
  It fails where stripping a character uncovers white space that \<open>trim\<close>, which ran
  before the stripping, could not see: \<open>"! a"\<close> normalizes to \<open>" a"\<close>, and that to
  \<open>"a"\<close>.
\<close>

theorem normalize_not_idempotent:
  "normalizeProductName (normalizeProductName ''! a'') \<noteq> normalizeProductName ''! a''"
  by code_simp

text \<open>
  C4, amended: normalizing a normalized name only trims it. So normalization is
  idempotent at a name exactly when the normalized name has no white space at either
  end.
\<close>

theorem normalize_twice:
  "normalizeProductName (normalizeProductName x) = trim (normalizeProductName x)
   \<and> (normalizeProductName (normalizeProductName x) = normalizeProductName x
        \<longleftrightarrow> trimmed (normalizeProductName x))"
proof -
  have "normalizeProductName (normalizeProductName x) = trim (normalizeProductName x)"
    by (rule normalizeProductName_kept) (simp add: kept_normalizeProductName)
  then show ?thesis by (simp add: trim_id_iff)
qed

theorem normalize_twice_witness:
  "normalizeProductName (normalizeProductName '' MANGO! '') = normalizeProductName '' MANGO! ''
   \<and> normalizeProductName (normalizeProductName ''! a'') = ''a''"
proof -
  have a: "trimmed (normalizeProductName '' MANGO! '')" by code_simp
  have b: "trim (normalizeProductName ''! a'') = ''a''" by code_simp
  from a normalize_twice [of "'' MANGO! ''"]
  have "normalizeProductName (normalizeProductName '' MANGO! '') = normalizeProductName '' MANGO! ''"
    by blast
  moreover from b normalize_twice [of "''! a''"]
  have "normalizeProductName (normalizeProductName ''! a'') = ''a''"
    by (simp only:)
  ultimately show ?thesis by (rule conjI)
qed


section \<open>Facts about the aggregation\<close>

lemma split_first: "\<exists>ws. split sep s = takeWhile (\<lambda>c. c \<noteq> sep) s # ws"
  by (induction s) (auto split: list.splits)

lemma hyphen_not_kept: "\<not> keptChar CHR ''-''"
  by (simp add: keptChar_def isWhiteSpace_def)

lemma hyphen_notin_normalize: "CHR ''-'' \<notin> set (normalizeProductName x)"
  using hyphen_not_kept kept_normalizeProductName by blast

lemma takeWhile_keyOf:
  assumes "CHR ''-'' \<notin> set (fst g)"
  shows "takeWhile (\<lambda>c. c \<noteq> CHR ''-'') (keyOf g) = fst g"
proof -
  have "takeWhile (\<lambda>c. c \<noteq> CHR ''-'') (fst g @ (CHR ''-'' # snd g))
          = fst g @ takeWhile (\<lambda>c. c \<noteq> CHR ''-'') (CHR ''-'' # snd g)"
    by (rule takeWhile_append2) (use assms in auto)
  then show ?thesis by (simp add: keyOf_def)
qed

lemma dropWhile_keyOf:
  assumes "CHR ''-'' \<notin> set (fst g)"
  shows "dropWhile (\<lambda>c. c \<noteq> CHR ''-'') (keyOf g) = CHR ''-'' # snd g"
proof -
  have "dropWhile (\<lambda>c. c \<noteq> CHR ''-'') (fst g @ (CHR ''-'' # snd g))
          = dropWhile (\<lambda>c. c \<noteq> CHR ''-'') (CHR ''-'' # snd g)"
    by (rule dropWhile_append2) (use assms in auto)
  then show ?thesis by (simp add: keyOf_def)
qed

lemma keyOf_inj:
  assumes "CHR ''-'' \<notin> set (fst g)" "CHR ''-'' \<notin> set (fst h)" "keyOf g = keyOf h"
  shows "g = h"
proof -
  have "fst g = fst h" using assms takeWhile_keyOf by metis
  moreover have "snd g = snd h" using assms dropWhile_keyOf by (metis list.inject)
  ultimately show ?thesis by (simp add: prod_eq_iff)
qed

lemma wellFormed_groupOf: "wellFormed (groupOf p)"
  by (simp add: wellFormed_def groupOf_def hyphen_notin_normalize)

lemma groups_snoc: "groups (ps @ [p]) = (if groupOf p \<in> set (groups ps) then groups ps else groups ps @ [groupOf p])"
  by (simp add: groups_def)

lemma set_groups: "set (groups ps) = groupOf ` set ps"
  by (induction ps rule: rev_induct) (auto simp: groups_snoc groups_def)

lemma distinct_groups: "distinct (groups ps)"
  by (induction ps rule: rev_induct) (auto simp: groups_snoc groups_def)

lemma mapGet_absent:
  "k \<notin> fst ` set m \<Longrightarrow> mapGet m k = None"
  by (simp add: mapGet_def map_of_eq_None_iff)

lemma mapSet_absent: "k \<notin> fst ` set m \<Longrightarrow> mapSet m k v = m @ [(k, v)]"
  by (induction m) auto

lemma mapGet_present:
  "\<lbrakk>g \<in> set gs; \<forall>h \<in> set gs. wellFormed h; wellFormed g\<rbrakk>
   \<Longrightarrow> mapGet (map (\<lambda>h. (keyOf h, f h)) gs) (keyOf g) = Some (f g)"
proof (induction gs)
  case Nil then show ?case by simp
next
  case (Cons a gs)
  show ?case
  proof (cases "a = g")
    case True then show ?thesis by (simp add: mapGet_def)
  next
    case False
    then have "keyOf a \<noteq> keyOf g" using Cons.prems keyOf_inj[of a g] by (auto simp: wellFormed_def)
    then show ?thesis using Cons False by (simp add: mapGet_def)
  qed
qed

lemma mapSet_present:
  "\<lbrakk>g \<in> set gs; distinct gs; \<forall>h \<in> set gs. wellFormed h; wellFormed g\<rbrakk>
   \<Longrightarrow> mapSet (map (\<lambda>h. (keyOf h, f h)) gs) (keyOf g) v
       = map (\<lambda>h. (keyOf h, if h = g then v else f h)) gs"
proof (induction gs)
  case Nil then show ?case by simp
next
  case (Cons a gs)
  show ?case
  proof (cases "a = g")
    case True
    then have "g \<notin> set gs" using Cons.prems by simp
    then have "map (\<lambda>h. (keyOf h, f h)) gs = map (\<lambda>h. (keyOf h, if h = g then v else f h)) gs"
      by (intro map_cong) auto
    then show ?thesis using True by simp
  next
    case False
    then have "keyOf a \<noteq> keyOf g" using Cons.prems keyOf_inj[of a g] by (auto simp: wellFormed_def)
    then show ?thesis using Cons False by simp
  qed
qed

lemma runningTotal_snoc:
  "xs \<noteq> [] \<Longrightarrow> runningTotal host (xs @ [x]) = num_add host (runningTotal host xs) x"
  by (cases xs) (simp_all add: runningTotal_def)

lemma members_snoc: "members (ps @ [p]) g = (if groupOf p = g then members ps g @ [p] else members ps g)"
  by (simp add: members_def)

lemma members_empty_iff: "members ps g = [] \<longleftrightarrow> g \<notin> groupOf ` set ps"
  by (auto simp: members_def filter_empty_conv)

lemma addProducts:
  "foldl (addProduct host) [] ps = map (\<lambda>g. (keyOf g, entryOf host ps g)) (groups ps)"
proof (induction ps rule: rev_induct)
  case Nil
  then show ?case by (simp add: groups_def)
next
  case (snoc p ps)
  let ?g = "groupOf p"
  let ?pm = "map (\<lambda>g. (keyOf g, entryOf host ps g)) (groups ps)"
  have key: "normalizeProductName (Product.name p) @ ''-'' @ Product.category p = keyOf ?g"
    by (simp add: keyOf_def groupOf_def)
  have wf: "\<forall>h \<in> set (groups ps). wellFormed h"
    by (auto simp: set_groups wellFormed_groupOf)
  have step: "foldl (addProduct host) [] (ps @ [p]) = addProduct host ?pm p"
    using snoc by simp
  show ?case
  proof (cases "?g \<in> set (groups ps)")
    case True
    have get: "mapGet ?pm (keyOf ?g) = Some (entryOf host ps ?g)"
      using True wf wellFormed_groupOf by (rule mapGet_present)
    have nonempty: "members ps ?g \<noteq> []"
      using True by (simp add: members_empty_iff set_groups)
    let ?v = "(entryOf host ps ?g)\<lparr>total := num_add host (total (entryOf host ps ?g)) (price p),
                 count := count (entryOf host ps ?g) + 1\<rparr>"
    have "addProduct host ?pm p = mapSet ?pm (keyOf ?g) ?v"
      unfolding addProduct_def Let_def key get by simp
    also have "\<dots> = map (\<lambda>h. (keyOf h, if h = ?g then ?v else entryOf host ps h)) (groups ps)"
      using True distinct_groups wf wellFormed_groupOf by (rule mapSet_present)
    also have "\<dots> = map (\<lambda>h. (keyOf h, entryOf host (ps @ [p]) h)) (groups ps)"
      using nonempty by (intro map_cong) (auto simp: entryOf_def members_snoc runningTotal_snoc)
    finally show ?thesis using True step by (simp add: groups_snoc)
  next
    case False
    have notin: "keyOf ?g \<notin> fst ` set ?pm"
    proof
      assume "keyOf ?g \<in> fst ` set ?pm"
      then obtain h where h: "h \<in> set (groups ps)" "keyOf h = keyOf ?g" by auto
      then have "h = ?g" using wf wellFormed_groupOf keyOf_inj[of h ?g] by (auto simp: wellFormed_def)
      with h False show False by simp
    qed
    have empty: "members ps ?g = []"
      using False by (simp add: members_empty_iff set_groups)
    let ?v = "\<lparr>total = price p, count = 1, category = Product.category p\<rparr>"
    have a: "addProduct host ?pm p = ?pm @ [(keyOf ?g, ?v)]"
      unfolding addProduct_def Let_def key mapGet_absent[OF notin]
      using mapSet_absent[OF notin] by simp
    have "members (ps @ [p]) ?g = [p]" by (simp add: members_snoc empty)
    then have b: "?v = entryOf host (ps @ [p]) ?g"
      by (simp add: entryOf_def groupOf_def runningTotal_def)
    have c: "?pm = map (\<lambda>h. (keyOf h, entryOf host (ps @ [p]) h)) (groups ps)"
      using False by (intro map_cong) (auto simp: entryOf_def members_snoc)
    have "foldl (addProduct host) [] (ps @ [p])
            = map (\<lambda>h. (keyOf h, entryOf host (ps @ [p]) h)) (groups ps)
              @ [(keyOf ?g, entryOf host (ps @ [p]) ?g)]"
      unfolding step a b using c by simp
    then show ?thesis using False by (simp add: groups_snoc)
  qed
qed

lemma count_addProducts:
  assumes "(k, e) \<in> set (foldl (addProduct host) [] ps)"
  shows "1 \<le> count e"
proof -
  from assms obtain g where g: "g \<in> set (groups ps)" and e: "e = entryOf host ps g"
    unfolding addProducts by auto
  from g obtain p where "p \<in> set ps" and "groupOf p = g"
    unfolding set_groups by blast
  then have "p \<in> set (members ps g)" by (simp add: members_def)
  then have "members ps g \<noteq> []" by auto
  then show ?thesis unfolding e by (cases "members ps g") (simp_all add: entryOf_def)
qed

lemma toAverage_entryOf:
  "wellFormed g \<Longrightarrow> toAverage host (keyOf g, entryOf host ps g) = Inr (averageOf host ps g)"
proof -
  assume "wellFormed g"
  then have "takeWhile (\<lambda>c. c \<noteq> CHR ''-'') (keyOf g) = fst g"
    by (simp add: wellFormed_def takeWhile_keyOf)
  moreover obtain ws where "split CHR ''-'' (keyOf g) = takeWhile (\<lambda>c. c \<noteq> CHR ''-'') (keyOf g) # ws"
    using split_first by blast
  ultimately show ?thesis
    by (simp add: toAverage_def entryOf_def averageOf_def)
qed

lemma mapE_total: "\<forall>x \<in> set xs. f (h x) = Inr (g x) \<Longrightarrow> mapE f (map h xs) = Inr (map g xs)"
  by (induction xs) auto

lemma mset_insertBy: "mset (insertBy cmp x ys) = add_mset x (mset ys)"
  by (induction ys) auto

lemma mset_sortBy: "mset (sortBy cmp xs) = mset xs"
  by (induction xs) (auto simp: sortBy_def mset_insertBy)

lemma computeAverages_eq:
  "computeAverages host localeCompare ps =
     Inr (sortBy (\<lambda>a b. localeCompare (AveragePrice.name a) (AveragePrice.name b))
            (map (averageOf host ps) (groups ps)))"
proof -
  have "mapE (toAverage host) (map (\<lambda>g. (keyOf g, entryOf host ps g)) (groups ps))
          = Inr (map (averageOf host ps) (groups ps))"
    by (rule mapE_total) (auto simp: set_groups toAverage_entryOf wellFormed_groupOf)
  then show ?thesis
    by (simp add: computeAverages_def addProducts)
qed


lemma keptChar_upperChar: "keptChar c \<Longrightarrow> upperChar c = [asciiUpper c]"
  by (auto simp: keptChar_def upperChar_def asciiUpper_def isWhiteSpace_def Let_def)

lemma capitalizeFirst_kept: "\<forall>c \<in> set n. keptChar c \<Longrightarrow> capitalizeFirst n = firstUpper n"
  by (cases n) (simp_all add: capitalizeFirst_def firstUpper_def charAt_def slice_def toUpperCase_def keptChar_upperChar)

lemma capitalizeFirst_normalize:
  "capitalizeFirst (normalizeProductName x) = firstUpper (normalizeProductName x)"
  by (rule capitalizeFirst_kept) (simp add: kept_normalizeProductName)

lemma computeAverages_mset:
  "\<exists>averages. computeAverages host localeCompare ps = Inr averages
      \<and> mset averages = image_mset (averageOf host ps) (mset_set (groupOf ` set ps))"
proof -
  have "mset_set (groupOf ` set ps) = mset (groups ps)"
    using distinct_groups[of ps] set_groups[of ps] mset_set_set by metis
  then show ?thesis by (simp add: computeAverages_eq mset_sortBy)
qed

lemma computeAverages_set:
  "\<exists>averages. computeAverages host localeCompare ps = Inr averages
      \<and> set averages = averageOf host ps ` groupOf ` set ps"
proof -
  obtain averages where a: "computeAverages host localeCompare ps = Inr averages"
    and m: "mset averages = image_mset (averageOf host ps) (mset_set (groupOf ` set ps))"
    using computeAverages_mset [of host localeCompare ps] by blast
  have "set averages = set_mset (mset averages)" by simp
  also have "\<dots> = averageOf host ps ` groupOf ` set ps" unfolding m by simp
  finally show ?thesis using a by blast
qed

lemma length_filter_disjoint:
  "\<forall>x. \<not> (P x \<and> Q x) \<Longrightarrow> length (filter P xs) + length (filter Q xs) = length (filter (\<lambda>x. P x \<or> Q x) xs)"
  by (induction xs) auto

lemma sum_length_members:
  "distinct gs \<Longrightarrow> sum_list (map (\<lambda>g. length (members ps g)) gs) = length (filter (\<lambda>p. groupOf p \<in> set gs) ps)"
proof (induction gs)
  case Nil
  then show ?case by simp
next
  case (Cons g gs)
  then have "\<forall>p. \<not> (groupOf p = g \<and> groupOf p \<in> set gs)" by auto
  then have "length (filter (\<lambda>p. groupOf p = g) ps) + length (filter (\<lambda>p. groupOf p \<in> set gs) ps)
      = length (filter (\<lambda>p. groupOf p = g \<or> groupOf p \<in> set gs) ps)"
    by (rule length_filter_disjoint)
  with Cons show ?case by (simp add: members_def)
qed

lemma sum_counts: "sum_list (map (\<lambda>g. length (members ps g)) (groups ps)) = length ps"
  by (simp add: sum_length_members distinct_groups set_groups)

lemma sum_list_sortBy: "sum_list (map f (sortBy cmp xs)) = sum_list (map (f :: 'a \<Rightarrow> nat) xs)"
proof -
  have "sum_list (map f (sortBy cmp xs)) = sum_mset (image_mset f (mset (sortBy cmp xs)))"
    by (metis mset_map sum_mset_sum_list)
  also have "\<dots> = sum_list (map f xs)"
    unfolding mset_sortBy by (metis mset_map sum_mset_sum_list)
  finally show ?thesis .
qed

lemma members_nonempty: "p \<in> set ps \<Longrightarrow> p \<in> set (members ps (groupOf p))"
  by (simp add: members_def)

section \<open>The claims about the aggregation\<close>

text \<open>
  C1: for every product list the aggregation succeeds and yields exactly one entry per
  distinct pair of normalized name and category: as many entries as there are distinct
  pairs, the entries' display names and categories being those of the pairs, each once;
  and two products with the same normalized name and different categories are shown in
  two different entries.
\<close>

theorem one_group_per_pair:
  "\<exists>averages. computeAverages host localeCompare products = Inr averages
      \<and> length averages = card (groupOf ` set products)
      \<and> image_mset (\<lambda>a. (AveragePrice.name a, AveragePrice.category a)) (mset averages)
           = image_mset (\<lambda>g. (capitalizeFirst (fst g), snd g)) (mset_set (groupOf ` set products))
      \<and> (\<forall>p \<in> set products. \<forall>q \<in> set products.
             normalizeProductName (Product.name p) = normalizeProductName (Product.name q)
             \<and> Product.category p \<noteq> Product.category q
             \<longrightarrow> (\<exists>a \<in> set averages. \<exists>b \<in> set averages. a \<noteq> b
                    \<and> AveragePrice.name a = AveragePrice.name b
                    \<and> AveragePrice.category a = Product.category p
                    \<and> AveragePrice.category b = Product.category q))"
proof -
  obtain averages where a: "computeAverages host localeCompare products = Inr averages"
    and m: "mset averages = image_mset (averageOf host products) (mset_set (groupOf ` set products))"
    using computeAverages_mset [of host localeCompare products] by blast
  have "length averages = size (mset averages)" by simp
  also have "\<dots> = card (groupOf ` set products)" unfolding m by simp
  finally have l: "length averages = card (groupOf ` set products)" .
  have i: "image_mset (\<lambda>a. (AveragePrice.name a, AveragePrice.category a)) (mset averages)
           = image_mset (\<lambda>g. (capitalizeFirst (fst g), snd g)) (mset_set (groupOf ` set products))"
    unfolding m by (simp add: image_mset.compositionality comp_def averageOf_def)
  have s: "set averages = averageOf host products ` groupOf ` set products"
  proof -
    have "set averages = set_mset (mset averages)" by simp
    also have "\<dots> = averageOf host products ` groupOf ` set products" unfolding m by simp
    finally show ?thesis .
  qed
  have two: "\<exists>a \<in> set averages. \<exists>b \<in> set averages. a \<noteq> b
                    \<and> AveragePrice.name a = AveragePrice.name b
                    \<and> AveragePrice.category a = Product.category p
                    \<and> AveragePrice.category b = Product.category q"
    if "p \<in> set products" "q \<in> set products"
      "normalizeProductName (Product.name p) = normalizeProductName (Product.name q)"
      "Product.category p \<noteq> Product.category q" for p q
  proof -
    let ?a = "averageOf host products (groupOf p)" and ?b = "averageOf host products (groupOf q)"
    have "?a \<in> set averages" "?b \<in> set averages" using that s by auto
    moreover have "AveragePrice.category ?a = Product.category p" "AveragePrice.category ?b = Product.category q"
      "AveragePrice.name ?a = AveragePrice.name ?b"
      using that by (simp_all add: averageOf_def groupOf_def)
    moreover from this that have "?a \<noteq> ?b" by metis
    ultimately show ?thesis by blast
  qed
  from a l i two show ?thesis by blast
qed


theorem one_group_per_pair_witness:
  "computeAverages binary64 rootCompare
     [\<lparr>Product.name = ''Rose'', category = ''flower'', price = 30 :: rat\<rparr>,
      \<lparr>Product.name = ''rose!'', category = ''fruit'', price = 40 :: rat\<rparr>,
      \<lparr>Product.name = ''ROSE'', category = ''flower'', price = 50 :: rat\<rparr>]
     = Inr [\<lparr>AveragePrice.name = ''Rose'', category = ''flower'', avgPrice = 40 :: rat, shopCount = 2\<rparr>,
            \<lparr>AveragePrice.name = ''Rose'', category = ''fruit'', avgPrice = 40 :: rat, shopCount = 1\<rparr>]
   \<and> card (groupOf ` set
        [\<lparr>Product.name = ''Rose'', category = ''flower'', price = 30 :: rat\<rparr>,
         \<lparr>Product.name = ''rose!'', category = ''fruit'', price = 40 :: rat\<rparr>,
         \<lparr>Product.name = ''ROSE'', category = ''flower'', price = 50 :: rat\<rparr>]) = 2
   \<and> normalizeProductName ''Rose'' = normalizeProductName ''rose!''"
proof -
  let ?ps = "[\<lparr>Product.name = ''Rose'', category = ''flower'', price = 30 :: rat\<rparr>,
      \<lparr>Product.name = ''rose!'', category = ''fruit'', price = 40 :: rat\<rparr>,
      \<lparr>Product.name = ''ROSE'', category = ''flower'', price = 50 :: rat\<rparr>]"
  let ?out = "[\<lparr>AveragePrice.name = ''Rose'', category = ''flower'', avgPrice = 40 :: rat, shopCount = 2\<rparr>,
            \<lparr>AveragePrice.name = ''Rose'', category = ''fruit'', avgPrice = 40 :: rat, shopCount = 1\<rparr>]"
  have ev: "computeAverages binary64 rootCompare ?ps = Inr ?out" by code_simp
  have n: "normalizeProductName ''Rose'' = normalizeProductName ''rose!''" by code_simp
  obtain averages where A: "computeAverages binary64 rootCompare ?ps = Inr averages"
    and L: "length averages = card (groupOf ` set ?ps)"
    using one_group_per_pair [of binary64 rootCompare ?ps] by blast
  from A ev have "averages = ?out" by (simp only: sum.inject)
  with L have "card (groupOf ` set ?ps) = 2" by simp
  with ev n show ?thesis by (intro conjI)
qed

text \<open>
  C6: every entry's display name is the normalized name of its group with the first
  character upper-cased, whatever the casing of the products' names and whichever
  product came first; and every product's group is shown under that name.
\<close>

theorem display_name_from_normalized:
  "\<exists>averages. computeAverages host localeCompare products = Inr averages
      \<and> (\<forall>a \<in> set averages. \<exists>p \<in> set products.
             AveragePrice.name a = firstUpper (normalizeProductName (Product.name p))
             \<and> AveragePrice.category a = Product.category p)
      \<and> (\<forall>p \<in> set products. \<exists>a \<in> set averages.
             AveragePrice.name a = firstUpper (normalizeProductName (Product.name p))
             \<and> AveragePrice.category a = Product.category p)"
proof -
  obtain averages where a: "computeAverages host localeCompare products = Inr averages"
    and s: "set averages = averageOf host products ` groupOf ` set products"
    using computeAverages_set [of host localeCompare products] by blast
  have n: "AveragePrice.name (averageOf host products (groupOf p))
             = firstUpper (normalizeProductName (Product.name p))"
          "AveragePrice.category (averageOf host products (groupOf p)) = Product.category p" for p
    by (simp_all add: averageOf_def groupOf_def capitalizeFirst_normalize)
  have "\<forall>a \<in> set averages. \<exists>p \<in> set products.
             AveragePrice.name a = firstUpper (normalizeProductName (Product.name p))
             \<and> AveragePrice.category a = Product.category p"
    unfolding s using n by blast
  moreover have "\<forall>p \<in> set products. \<exists>a \<in> set averages.
             AveragePrice.name a = firstUpper (normalizeProductName (Product.name p))
             \<and> AveragePrice.category a = Product.category p"
    unfolding s using n by blast
  ultimately show ?thesis using a by blast
qed


theorem display_name_from_normalized_witness:
  "computeAverages binary64 rootCompare
     [\<lparr>Product.name = ''Mango'', category = ''fruit'', price = 50 :: rat\<rparr>,
      \<lparr>Product.name = ''MANGO '', category = ''fruit'', price = 60 :: rat\<rparr>]
     = Inr [\<lparr>AveragePrice.name = ''Mango'', category = ''fruit'', avgPrice = 55 :: rat, shopCount = 2\<rparr>]
   \<and> computeAverages binary64 rootCompare
     [\<lparr>Product.name = ''MANGO '', category = ''fruit'', price = 60 :: rat\<rparr>,
      \<lparr>Product.name = ''Mango'', category = ''fruit'', price = 50 :: rat\<rparr>]
     = Inr [\<lparr>AveragePrice.name = ''Mango'', category = ''fruit'', avgPrice = 55 :: rat, shopCount = 2\<rparr>]
   \<and> firstUpper (normalizeProductName ''MANGO '') = ''Mango''"
proof -
  let ?m = "\<lparr>Product.name = ''Mango'', category = ''fruit'', price = 50 :: rat\<rparr>"
  let ?M = "\<lparr>Product.name = ''MANGO '', category = ''fruit'', price = 60 :: rat\<rparr>"
  let ?a = "\<lparr>AveragePrice.name = ''Mango'', category = ''fruit'', avgPrice = 55 :: rat, shopCount = 2\<rparr>"
  have ev1: "computeAverages binary64 rootCompare [?m, ?M] = Inr [?a]" by code_simp
  have ev2: "computeAverages binary64 rootCompare [?M, ?m] = Inr [?a]" by code_simp
  obtain averages where "computeAverages binary64 rootCompare [?M, ?m] = Inr averages"
    and "\<forall>p \<in> set [?M, ?m]. \<exists>a \<in> set averages.
             AveragePrice.name a = firstUpper (normalizeProductName (Product.name p))
             \<and> AveragePrice.category a = Product.category p"
    using display_name_from_normalized [of binary64 rootCompare "[?M, ?m]"] by blast
  with ev2 have "firstUpper (normalizeProductName ''MANGO '') = ''Mango''" by simp
  with ev1 ev2 show ?thesis by blast
qed





lemma fetchAveragePrices_resolved:
  "computeAverages host localeCompare products = Inr averages \<Longrightarrow>
   fetchAveragePrices host localeCompare (Resolved (Some products)) st
     = st\<lparr>averagePrices := averages, PanelState.loading := False\<rparr>"
  by (simp add: fetchAveragePrices_def)

text \<open>
  C9: the counts of the entries add up to the length of the product list, every entry
  counts at least one product, and an empty product list gives no entries.
\<close>

theorem every_product_counted_once:
  "\<exists>averages. computeAverages host localeCompare products = Inr averages
      \<and> sum_list (map shopCount averages) = length products
      \<and> (\<forall>a \<in> set averages. 1 \<le> shopCount a)
      \<and> (products = [] \<longrightarrow> averages = [])"
proof -
  let ?cmp = "\<lambda>a b. localeCompare (AveragePrice.name a) (AveragePrice.name b)"
  let ?averages = "sortBy ?cmp (map (averageOf host products) (groups products))"
  have a: "computeAverages host localeCompare products = Inr ?averages"
    by (rule computeAverages_eq)
  have "sum_list (map shopCount ?averages)
          = sum_list (map shopCount (map (averageOf host products) (groups products)))"
    by (rule sum_list_sortBy)
  also have "\<dots> = sum_list (map (\<lambda>g. length (members products g)) (groups products))"
    by (simp add: comp_def averageOf_def)
  also have "\<dots> = length products" by (rule sum_counts)
  finally have s: "sum_list (map shopCount ?averages) = length products" .
  have "set ?averages = set_mset (mset ?averages)" by simp
  also have "\<dots> = averageOf host products ` set (groups products)"
    unfolding mset_sortBy by simp
  finally have st: "set ?averages = averageOf host products ` groupOf ` set products"
    by (simp add: set_groups)
  have pos: "\<forall>a \<in> set ?averages. 1 \<le> shopCount a"
  proof
    fix a assume "a \<in> set ?averages"
    then obtain p where p: "p \<in> set products" and e: "a = averageOf host products (groupOf p)"
      unfolding st by blast
    from p have "members products (groupOf p) \<noteq> []"
      using members_nonempty by fastforce
    then show "1 \<le> shopCount a"
      unfolding e by (cases "members products (groupOf p)") (simp_all add: averageOf_def)
  qed
  have "products = [] \<longrightarrow> ?averages = []"
    by (simp add: groups_def sortBy_def)
  with a s pos show ?thesis by blast
qed

theorem every_product_counted_once_witness:
  "computeAverages binary64 rootCompare
     [\<lparr>Product.name = ''Mango'', category = ''fruit'', price = 50 :: rat\<rparr>,
      \<lparr>Product.name = ''mango '', category = ''fruit'', price = 60 :: rat\<rparr>,
      \<lparr>Product.name = ''Rose'', category = ''flower'', price = 30 :: rat\<rparr>]
     = Inr [\<lparr>AveragePrice.name = ''Mango'', category = ''fruit'', avgPrice = 55 :: rat, shopCount = 2\<rparr>,
            \<lparr>AveragePrice.name = ''Rose'', category = ''flower'', avgPrice = 30 :: rat, shopCount = 1\<rparr>]
   \<and> (2::nat) + 1 = length
        [\<lparr>Product.name = ''Mango'', category = ''fruit'', price = 50 :: rat\<rparr>,
         \<lparr>Product.name = ''mango '', category = ''fruit'', price = 60 :: rat\<rparr>,
         \<lparr>Product.name = ''Rose'', category = ''flower'', price = 30 :: rat\<rparr>]
   \<and> computeAverages binary64 rootCompare [] = Inr []"
proof -
  let ?ps = "[\<lparr>Product.name = ''Mango'', category = ''fruit'', price = 50 :: rat\<rparr>,
      \<lparr>Product.name = ''mango '', category = ''fruit'', price = 60 :: rat\<rparr>,
      \<lparr>Product.name = ''Rose'', category = ''flower'', price = 30 :: rat\<rparr>]"
  let ?A = "\<lparr>AveragePrice.name = ''Mango'', category = ''fruit'', avgPrice = 55 :: rat, shopCount = 2\<rparr>"
  let ?B = "\<lparr>AveragePrice.name = ''Rose'', category = ''flower'', avgPrice = 30 :: rat, shopCount = 1\<rparr>"
  have ev: "computeAverages binary64 rootCompare ?ps = Inr [?A, ?B]" by code_simp
  obtain averages where A: "computeAverages binary64 rootCompare ?ps = Inr averages"
    and S: "sum_list (map shopCount averages) = length ?ps"
    using every_product_counted_once [of binary64 rootCompare ?ps] by blast
  from A ev have avs: "averages = [?A, ?B]" by (simp only: sum.inject)
  from S have c: "(2::nat) + 1 = length ?ps" unfolding avs by simp
  obtain none where E: "computeAverages binary64 rootCompare [] = Inr none"
    and N: "([] :: rat Product list) = [] \<longrightarrow> none = []"
    using every_product_counted_once [of binary64 rootCompare "[]"] by blast
  from N have "none = []" by simp
  with E have e: "computeAverages binary64 rootCompare [] = Inr []" by simp
  from ev c e show ?thesis by (intro conjI)
qed

text \<open>
  C10: a product whose name normalizes to the empty string raises no error and is not
  dropped: the aggregation succeeds, the panel receives its result, and the product is
  counted in an entry whose display name is the empty string.
\<close>

theorem empty_name_still_grouped:
  assumes "p \<in> set products" and "normalizeProductName (Product.name p) = []"
  shows "\<exists>averages. computeAverages host localeCompare products = Inr averages
      \<and> averagePrices (fetchAveragePrices host localeCompare (Resolved (Some products)) st) = averages
      \<and> (\<exists>a \<in> set averages. AveragePrice.name a = [] \<and> AveragePrice.category a = Product.category p
            \<and> shopCount a = length (members products (groupOf p))
            \<and> p \<in> set (members products (groupOf p)))"
proof -
  obtain averages where a: "computeAverages host localeCompare products = Inr averages"
    and s: "set averages = averageOf host products ` groupOf ` set products"
    using computeAverages_set [of host localeCompare products] by blast
  let ?a = "averageOf host products (groupOf p)"
  have "?a \<in> set averages" using assms(1) s by blast
  moreover have "AveragePrice.name ?a = []"
    using assms(2) by (simp add: averageOf_def groupOf_def capitalizeFirst_def charAt_def slice_def toUpperCase_def)
  moreover have "AveragePrice.category ?a = Product.category p"
    "shopCount ?a = length (members products (groupOf p))"
    by (simp_all add: averageOf_def groupOf_def)
  moreover have "p \<in> set (members products (groupOf p))"
    using assms(1) by (rule members_nonempty)
  moreover have "averagePrices (fetchAveragePrices host localeCompare (Resolved (Some products)) st) = averages"
    using a by (simp add: fetchAveragePrices_resolved)
  ultimately show ?thesis using a by blast
qed

theorem empty_name_still_grouped_witness:
  "normalizeProductName ''!!!'' = []
   \<and> computeAverages binary64 rootCompare [\<lparr>Product.name = ''!!!'', category = ''fruit'', price = 50 :: rat\<rparr>]
       = Inr [\<lparr>AveragePrice.name = [], category = ''fruit'', avgPrice = 50 :: rat, shopCount = 1\<rparr>]
   \<and> averagePrices
         (fetchAveragePrices binary64 rootCompare
            (Resolved (Some [\<lparr>Product.name = ''!!!'', category = ''fruit'', price = 50 :: rat\<rparr>]))
            \<lparr>averagePrices = [], PanelState.loading = True\<rparr>)
       = [\<lparr>AveragePrice.name = [], category = ''fruit'', avgPrice = 50 :: rat, shopCount = 1\<rparr>]"
proof -
  let ?p = "\<lparr>Product.name = ''!!!'', category = ''fruit'', price = 50 :: rat\<rparr>"
  let ?st = "\<lparr>averagePrices = [], PanelState.loading = True\<rparr>"
  have n: "normalizeProductName (Product.name ?p) = []" by code_simp
  have i: "?p \<in> set [?p]" by simp
  have ev: "computeAverages binary64 rootCompare [?p]
       = Inr [\<lparr>AveragePrice.name = [], category = ''fruit'', avgPrice = 50 :: rat, shopCount = 1\<rparr>]"
    by code_simp
  obtain averages where A: "computeAverages binary64 rootCompare [?p] = Inr averages"
    and F: "averagePrices (fetchAveragePrices binary64 rootCompare (Resolved (Some [?p])) ?st) = averages"
    using empty_name_still_grouped [OF i n, of binary64 rootCompare ?st] by blast
  from A ev have "averages = [\<lparr>AveragePrice.name = [], category = ''fruit'', avgPrice = 50 :: rat, shopCount = 1\<rparr>]"
    by (simp only: sum.inject)
  with F have "averagePrices (fetchAveragePrices binary64 rootCompare (Resolved (Some [?p])) ?st)
       = [\<lparr>AveragePrice.name = [], category = ''fruit'', avgPrice = 50 :: rat, shopCount = 1\<rparr>]"
    by (simp only:)
  moreover from n have "normalizeProductName ''!!!'' = []" by simp
  ultimately show ?thesis using ev by (intro conjI)
qed


section \<open>The order of the entries\<close>

lemma set_insertBy: "set (insertBy cmp x ys) = insert x (set ys)"
  by (induction ys) auto

lemma sorted_insertBy:
  assumes "consistent cmp" and "sorted_wrt (\<lambda>a b. cmp a b \<le> 0) ys"
  shows "sorted_wrt (\<lambda>a b. cmp a b \<le> 0) (insertBy cmp x ys)"
  using assms(2)
proof (induction ys)
  case Nil
  then show ?case by simp
next
  case (Cons y ys)
  show ?case
  proof (cases "cmp x y \<le> 0")
    case True
    have "cmp x z \<le> 0" if "z \<in> set ys" for z
    proof -
      have "cmp y z \<le> 0" using Cons.prems that by simp
      with True show ?thesis using assms(1) unfolding consistent_def by blast
    qed
    with True Cons.prems show ?thesis by simp
  next
    case False
    then have "cmp y x \<le> 0" using assms(1) unfolding consistent_def by blast
    with False Cons show ?thesis by (auto simp: set_insertBy)
  qed
qed

lemma sorted_sortBy:
  "consistent cmp \<Longrightarrow> sorted_wrt (\<lambda>a b. cmp a b \<le> 0) (sortBy cmp xs)"
  by (induction xs) (simp_all add: sortBy_def sorted_insertBy)

lemma consistent_on_names:
  "consistent cmp \<Longrightarrow> consistent (\<lambda>a b. cmp (AveragePrice.name a) (AveragePrice.name b))"
  unfolding consistent_def by blast

lemma rootCompare_le: "rootCompare a b \<le> 0 \<longleftrightarrow> map collationRank a \<le> map collationRank b"
  by (auto simp: rootCompare_def)

lemma consistent_rootCompare: "consistent rootCompare"
  unfolding consistent_def rootCompare_le by (meson linear order_trans)

text \<open>
  C3, amended: for a consistent \<open>localeCompare\<close> the entries ascend by display name
  under \<open>localeCompare\<close>: no entry compares greater than a later one.
\<close>

theorem sorted_by_localeCompare:
  assumes "consistent localeCompare"
  shows "\<exists>averages. computeAverages host localeCompare products = Inr averages
      \<and> sorted_wrt (\<lambda>a b. localeCompare (AveragePrice.name a) (AveragePrice.name b) \<le> 0) averages"
  using sorted_sortBy [OF consistent_on_names [OF assms]]
  by (simp add: computeAverages_eq)

theorem sorted_by_localeCompare_witness:
  "computeAverages binary64 rootCompare
     [\<lparr>Product.name = ''Rose'', category = ''flower'', price = 30 :: rat\<rparr>,
      \<lparr>Product.name = ''Mango'', category = ''fruit'', price = 50 :: rat\<rparr>,
      \<lparr>Product.name = ''mango '', category = ''fruit'', price = 60 :: rat\<rparr>]
     = Inr [\<lparr>AveragePrice.name = ''Mango'', category = ''fruit'', avgPrice = 55 :: rat, shopCount = 2\<rparr>,
            \<lparr>AveragePrice.name = ''Rose'', category = ''flower'', avgPrice = 30 :: rat, shopCount = 1\<rparr>]
   \<and> rootCompare ''Mango'' ''Rose'' \<le> 0"
proof -
  let ?ps = "[\<lparr>Product.name = ''Rose'', category = ''flower'', price = 30 :: rat\<rparr>,
      \<lparr>Product.name = ''Mango'', category = ''fruit'', price = 50 :: rat\<rparr>,
      \<lparr>Product.name = ''mango '', category = ''fruit'', price = 60 :: rat\<rparr>]"
  let ?out = "[\<lparr>AveragePrice.name = ''Mango'', category = ''fruit'', avgPrice = 55 :: rat, shopCount = 2\<rparr>,
            \<lparr>AveragePrice.name = ''Rose'', category = ''flower'', avgPrice = 30 :: rat, shopCount = 1\<rparr>]"
  have ev: "computeAverages binary64 rootCompare ?ps = Inr ?out" by code_simp
  obtain averages where A: "computeAverages binary64 rootCompare ?ps = Inr averages"
    and S: "sorted_wrt (\<lambda>a b. rootCompare (AveragePrice.name a) (AveragePrice.name b) \<le> 0) averages"
    using sorted_by_localeCompare [OF consistent_rootCompare, of binary64 ?ps] by blast
  from A ev have "averages = ?out" by (simp only: sum.inject)
  with S have "rootCompare ''Mango'' ''Rose'' \<le> 0" by simp
  with ev show ?thesis by (intro conjI)
qed

text \<open>
  C3, as stated: the entries ascend by display name under case-insensitive ordinal
  comparison. The order is that of \<open>localeCompare\<close>, and a collation is not ordinal:
  NBSP, which is white space and so survives normalization inside a name, has code unit
  160, above every letter, and is ranked with SPACE, below every letter.
\<close>

theorem not_ordinal_order:
  "computeAverages binary64 rootCompare
     [\<lparr>Product.name = [CHR ''a'', CHR 0xA0, CHR ''x''], category = ''fruit'', price = 10 :: rat\<rparr>,
      \<lparr>Product.name = ''ab'', category = ''fruit'', price = 20 :: rat\<rparr>]
     = Inr [\<lparr>AveragePrice.name = [CHR ''A'', CHR 0xA0, CHR ''x''], category = ''fruit'',
              avgPrice = 10 :: rat, shopCount = 1\<rparr>,
            \<lparr>AveragePrice.name = ''Ab'', category = ''fruit'', avgPrice = 20 :: rat, shopCount = 1\<rparr>]
   \<and> \<not> sorted (map ordinalKey [[CHR ''A'', CHR 0xA0, CHR ''x''], ''Ab''])"
  by code_simp


section \<open>The shops shown\<close>

text \<open>
  C7: without a buyer location, the shops set by \<open>fetchShops\<close> are the fetched shops
  in the fetched order, unchanged: no distance is added.
\<close>

theorem unranked_without_location:
  "fetchShops host None (Resolved (Some rows, None)) st = st\<lparr>shops := rows, loading := False\<rparr>
   \<and> shops (fetchShops host None (Resolved (Some rows, None)) st) = rows
   \<and> map distance (shops (fetchShops host None (Resolved (Some rows, None)) st)) = map distance rows"
  by (simp add: fetchShops_def)

lemma handle_shops: "shops (handle host e st) = fetched (shops st) e"
proof (cases e)
  case (ShopsQuerySettled response)
  then show ?thesis
    by (auto simp: handle_def fetched_def fetchShops_def initialState_def
        split: response.splits option.splits prod.splits)
qed (simp_all add: handle_def fetched_def)

text \<open>
  C2: with a buyer location the shops are to be shown annotated with their distances
  and in ascending order of distance. The component does not do so: the ranking is in
  \<open>fetchShops\<close>, but the only \<open>fetchShops\<close> that runs is that of the first render,
  whose \<open>userLocation\<close> is null. Whatever the events, the shops shown are the rows of
  the last query that settled without error, as fetched; in particular after a position
  was found, when the page says that the nearest shops come first.
\<close>

theorem shops_shown_as_fetched:
  "shops (BuyerDashboard host events) = foldl fetched [] events
   \<and> userLocation
        (BuyerDashboard host [PositionFound loc, ShopsQuerySettled (Resolved (Some rows, None))])
       = Some loc
   \<and> shops
        (BuyerDashboard host [PositionFound loc, ShopsQuerySettled (Resolved (Some rows, None))])
       = rows"
proof -
  have "shops (BuyerDashboard host events) = foldl fetched [] events"
    by (induction events rule: rev_induct)
      (simp_all add: BuyerDashboard_def initialState_def handle_shops)
  moreover have "userLocation
        (BuyerDashboard host [PositionFound loc, ShopsQuerySettled (Resolved (Some rows, None))])
       = Some loc"
    by (simp add: BuyerDashboard_def handle_def fetchShops_def initialState_def)
  moreover have "shops
        (BuyerDashboard host [PositionFound loc, ShopsQuerySettled (Resolved (Some rows, None))])
       = rows"
    by (simp add: BuyerDashboard_def handle_def fetchShops_def initialState_def)
  ultimately show ?thesis by (intro conjI)
qed

end
